theory Spec2Isabelle
  imports Complex_Main "HOL-Library.Word"
begin

section \<open>The arming and failsafe module (src/src/mode.cpp)\<close>

subsection \<open>Collaborators\<close>

text \<open>
  Everything \<open>Mode\<close> reads through its back-reference \<open>RF_\<close> during one call: the
  parameter store, the gyro calibration status, the raw PWM link, the board clock and the
  RC decoder. One record value is one snapshot of these inputs; a sequence of calls is
  given a list of snapshots, so the inputs may change freely between calls.

  The sticks and the arm threshold are \<open>float\<close> in the source. A finite
  single-precision value is a rational number, and it is carried here as that number;
  infinities and NaN are outside the model (the RC decoder normalises the sticks and the
  threshold is a parameter in \<open>(0, 1)\<close>). Comparison and negation of such values are
  exact; the subtraction \<open>1.0f - threshold\<close> is rounded to single precision (see
  \<open>round32\<close> below). \<open>pwm_read\<close> is indexed by the value of the \<open>int8_t\<close> loop
  counter.
\<close>

record inputs =
  PARAM_CALIBRATE_GYRO_ON_ARM :: int
  PARAM_RC_NUM_CHANNELS :: int
  PARAM_ARM_THRESHOLD :: real
  gyro_calibration_complete :: bool
  pwm_lost :: bool
  pwm_read :: "int \<Rightarrow> 16 word"
  clock_millis :: "32 word"
  rc_switch_mapped_ARM :: bool
  rc_switch_ARM :: bool
  rc_stick_F :: real
  rc_stick_Z :: real

text \<open>
  The commands \<open>Mode\<close> sends to its collaborators (\<open>board_.led1_on()\<close>,
  \<open>board_.led1_off()\<close>, \<open>board_.led1_toggle()\<close>,
  \<open>sensors_.start_gyro_calibration()\<close>), logged in the order they are issued.
\<close>

datatype command = Led1_on | Led1_off | Led1_toggle | Start_gyro_calibration

subsection \<open>The fault set\<close>

text \<open>
  Modelled from the spec: \<open>mode.h\<close>, which declares the error enum, \<open>_error_code\<close>,
  \<open>set_error_code\<close> and \<open>clear_error_code\<close>, is not among the sources. The spec
  describes a set of named fault codes of which this module owns \<open>RC_LOST\<close>; it is
  queried for emptiness (\<open>_error_code != ERROR_NONE\<close>), and a named fault is set or
  cleared.
\<close>

datatype fault = ERROR_RC_LOST | ERROR_OTHER nat

definition ERROR_NONE :: "fault set" where
  "ERROR_NONE = {}"

subsection \<open>Module state\<close>

text \<open>
  Modelled from the spec: the member declarations of \<open>Mode\<close> are in \<open>mode.h\<close>, which
  is not among the sources; \<open>prev_time_ms\<close> and the hold timer are \<open>uint32\<close> there
  (\<open>EpochClock\<close> and \<open>GestureTimer\<close>). The members are the ones \<open>mode.cpp\<close> assigns;
  with them come the function-local \<open>static uint8_t count\<close> of \<open>check_failsafe\<close> and
  the log of the commands issued so far.
\<close>

record mode =
  armed :: bool
  error_code :: "fault set"
  failsafe_active :: bool
  started_gyro_calibration :: bool
  prev_time_ms :: "32 word"
  time_sticks_have_been_in_arming_position_ms :: "32 word"
  count :: "8 word"
  commands :: "command list"

text \<open>Sending a command to a collaborator appends it to the log.\<close>

definition issue :: "command \<Rightarrow> mode \<Rightarrow> mode" where
  "issue c s = s\<lparr>commands := commands s @ [c]\<rparr>"

text \<open>
  Modelled from the spec: \<open>set_error_code\<close> and \<open>clear_error_code\<close> are declared in
  \<open>mode.h\<close>, not among the sources. Setting a fault adds it to the fault set, clearing
  removes it.
\<close>

definition set_error_code :: "fault \<Rightarrow> mode \<Rightarrow> mode" where
  "set_error_code f s = s\<lparr>error_code := insert f (error_code s)\<rparr>"

definition clear_error_code :: "fault \<Rightarrow> mode \<Rightarrow> mode" where
  "clear_error_code f s = s\<lparr>error_code := error_code s - {f}\<rparr>"

subsection \<open>Mode::arm and Mode::disarm\<close>

text \<open>
  \<open>arm()\<close> returns its result together with the new state. Its three branches are
  the ones of the source: refusal under a fault, the calibrate-on-arm branch (parameter
  non-zero), and arming straight away.
\<close>

definition arm :: "inputs \<Rightarrow> mode \<Rightarrow> bool \<times> mode" where
  "arm e s =
    (if error_code s \<noteq> ERROR_NONE then (False, s)
     else if PARAM_CALIBRATE_GYRO_ON_ARM e \<noteq> 0 then
       (if \<not> started_gyro_calibration s \<and> \<not> armed s then
          (False, (issue Start_gyro_calibration s)\<lparr>started_gyro_calibration := True\<rparr>)
        else if gyro_calibration_complete e then
          (True, issue Led1_on (s\<lparr>started_gyro_calibration := False, armed := True\<rparr>))
        else (False, s))
     else
       (if \<not> armed s then (True, issue Led1_on (s\<lparr>armed := True\<rparr>))
        else (False, s)))"

definition disarm :: "mode \<Rightarrow> mode" where
  "disarm s = issue Led1_off (s\<lparr>armed := False\<rparr>)"

text \<open>Successive calls of \<open>arm()\<close>, one per input snapshot, with their return values.\<close>

fun arm_calls :: "inputs list \<Rightarrow> mode \<Rightarrow> bool list \<times> mode" where
  "arm_calls [] s = ([], s)"
| "arm_calls (e # es) s =
     (case arm e s of (r, s') \<Rightarrow> (case arm_calls es s' of (rs, s'') \<Rightarrow> (r # rs, s'')))"

subsection \<open>Mode::check_failsafe\<close>

text \<open>
  The test of the channel loop, \<open>pwm_read(i) < 900 || pwm_read(i) > 2100\<close>, on the
  \<open>uint16_t\<close> pulse width.
\<close>

definition pulse_invalid :: "inputs \<Rightarrow> int \<Rightarrow> bool" where
  "pulse_invalid e i = (pwm_read e i < 900 \<or> pwm_read e i > 2100)"

text \<open>
  The channel loop \<open>for (int8_t i = 0; i < get_param_int(PARAM_RC_NUM_CHANNELS); i++)\<close>,
  entered with \<open>i = 0\<close> and \<open>failsafe = false\<close>. The counter is eight bits wide and
  is compared as a signed value with the integer parameter; the increment wraps. Whether
  the loop is ever left therefore depends on the parameter, so the loop is a partial
  function: \<open>None\<close> stands for a scan that never ends.
\<close>

partial_function (option) channel_scan :: "inputs \<Rightarrow> 8 word \<Rightarrow> bool \<Rightarrow> bool option" where
  "channel_scan e i failsafe =
     (if sint i < PARAM_RC_NUM_CHANNELS e then
        channel_scan e (i + 1) (if pulse_invalid e (sint i) then True else failsafe)
      else Some failsafe)"

declare channel_scan.simps [code]

text \<open>
  \<open>check_failsafe\<close> returns the failsafe flag together with the new state. The static
  blink counter \<open>count\<close> is tested, possibly reset with a toggle of the LED, and then
  incremented.
\<close>

definition check_failsafe :: "inputs \<Rightarrow> mode \<Rightarrow> (bool \<times> mode) option" where
  "check_failsafe e s =
     (case (if pwm_lost e then Some (True, set_error_code ERROR_RC_LOST s)
            else map_option (\<lambda>failsafe. (failsafe, s)) (channel_scan e 0 False)) of
        None \<Rightarrow> None
      | Some (failsafe, s1) \<Rightarrow>
          Some (failsafe,
            if failsafe then
              (let s2 = (if count s1 > 25 then (issue Led1_toggle s1)\<lparr>count := 0\<rparr> else s1)
               in s2\<lparr>count := count s2 + 1, failsafe_active := True\<rparr>)
            else
              (let s2 = clear_error_code ERROR_RC_LOST (s1\<lparr>failsafe_active := False\<rparr>)
               in if armed s2 then issue Led1_on s2 else issue Led1_off s2)))"

subsection \<open>Single-precision arithmetic\<close>

text \<open>
  The result of a \<open>float\<close> operation is the exact result rounded to the nearest
  single-precision value, ties to the even significand (IEEE 754 binary32, the
  arithmetic of the targets this firmware is built for). \<open>binade n a\<close> finds the
  exponent of \<open>a \<ge> 0\<close>, biased by 126 and searched downwards from \<open>n\<close>: the largest
  \<open>k \<le> n\<close> with \<open>2 ^ k \<le> a * 2 ^ 126\<close>, and 0 for the subnormal range. The spacing
  of the single-precision values around \<open>x\<close> is then \<open>2 ^ k / 2 ^ 149\<close> (24 significant
  bits), and \<open>round32 x\<close> is the multiple of that spacing nearest to \<open>x\<close>. The
  difference of two finite single-precision values never rounds to an infinity when one
  of them is \<open>1.0f\<close>, so no overflow case is needed for \<open>1.0f - threshold\<close>.
\<close>

definition round_half_even :: "real \<Rightarrow> int" where
  "round_half_even x =
     (let f = \<lfloor>x\<rfloor>; d = x - of_int f
      in if d < 1 / 2 then f else if 1 / 2 < d then f + 1 else if even f then f else f + 1)"

fun binade :: "nat \<Rightarrow> real \<Rightarrow> nat" where
  "binade 0 a = 0"
| "binade (Suc n) a = (if 2 ^ Suc n \<le> a * 2 ^ 126 then Suc n else binade n a)"

definition round32 :: "real \<Rightarrow> real" where
  "round32 x =
     (let u = 2 ^ binade 253 \<bar>x\<bar> / 2 ^ 149
      in of_int (round_half_even (x / u)) * u)"

subsection \<open>Mode::update_state\<close>

text \<open>
  One call of \<open>update_state()\<close>: the return value and the new state, or \<open>None\<close> when
  the channel scan of \<open>check_failsafe\<close> never ends. \<open>dt\<close> is the unsigned 32-bit
  difference of the clock and \<open>prev_time_ms\<close>. In the gesture tests the stick is
  compared with the rounded difference \<open>1.0f - threshold\<close>.
\<close>

definition update_state :: "inputs \<Rightarrow> mode \<Rightarrow> (bool \<times> mode) option" where
  "update_state e s =
    (let now_ms = clock_millis e; dt = now_ms - prev_time_ms s in
     if dt < 20 then Some (False, s)
     else
       (case check_failsafe e (s\<lparr>prev_time_ms := now_ms\<rparr>) of
          None \<Rightarrow> None
        | Some (failsafe, s1) \<Rightarrow>
            if failsafe then Some (True, s1)
            else if \<not> rc_switch_mapped_ARM e then
              (if \<not> armed s1 then
                 (let s2 =
                    (if rc_stick_F e < PARAM_ARM_THRESHOLD e
                        \<and> rc_stick_Z e > round32 (1 - PARAM_ARM_THRESHOLD e)
                     then s1\<lparr>time_sticks_have_been_in_arming_position_ms :=
                              time_sticks_have_been_in_arming_position_ms s1 + dt\<rparr>
                     else s1\<lparr>time_sticks_have_been_in_arming_position_ms := 0\<rparr>)
                  in if time_sticks_have_been_in_arming_position_ms s2 > 500 then
                       (case arm e s2 of (ok, s3) \<Rightarrow>
                          Some (True,
                            if ok then s3\<lparr>time_sticks_have_been_in_arming_position_ms := 0\<rparr>
                            else s3))
                     else Some (True, s2))
               else
                 (let s2 =
                    (if rc_stick_F e < PARAM_ARM_THRESHOLD e
                        \<and> rc_stick_Z e < - round32 (1 - PARAM_ARM_THRESHOLD e)
                     then s1\<lparr>time_sticks_have_been_in_arming_position_ms :=
                              time_sticks_have_been_in_arming_position_ms s1 + dt\<rparr>
                     else s1\<lparr>time_sticks_have_been_in_arming_position_ms := 0\<rparr>)
                  in if time_sticks_have_been_in_arming_position_ms s2 > 500 then
                       Some (True,
                         (disarm s2)\<lparr>time_sticks_have_been_in_arming_position_ms := 0\<rparr>)
                     else Some (True, s2)))
            else
              (if rc_switch_ARM e then
                 (if \<not> armed s1 then Some (True, snd (arm e s1)) else Some (True, s1))
               else Some (True, disarm s1))))"

text \<open>
  Successive calls of \<open>check_failsafe()\<close>, one per input snapshot, with the flags they
  return.
\<close>

fun failsafe_checks :: "inputs list \<Rightarrow> mode \<Rightarrow> (bool list \<times> mode) option" where
  "failsafe_checks [] s = Some ([], s)"
| "failsafe_checks (e # es) s =
     (case check_failsafe e s of
        None \<Rightarrow> None
      | Some (r, s') \<Rightarrow>
          (case failsafe_checks es s' of
             None \<Rightarrow> None
           | Some (rs, s'') \<Rightarrow> Some (r # rs, s'')))"

text \<open>
  The inputs on which a call of \<open>check_failsafe()\<close> returns true: the link is lost, or
  the scan ends and finds a configured channel out of band.
\<close>

definition reports_failsafe :: "inputs \<Rightarrow> bool" where
  "reports_failsafe e =
     (pwm_lost e \<or>
      PARAM_RC_NUM_CHANNELS e \<le> 127
        \<and> (\<exists>j\<in>{0..<PARAM_RC_NUM_CHANNELS e}. pulse_invalid e j))"

text \<open>How often the LED has been toggled so far.\<close>

definition toggles :: "mode \<Rightarrow> nat" where
  "toggles s = count_list (commands s) Led1_toggle"

text \<open>
  The stick gestures tested by \<open>update_state\<close>, named for the statements below: the arm
  gesture (throttle low, yaw right) and the disarm gesture (throttle low, yaw left).
\<close>

definition arm_gesture :: "inputs \<Rightarrow> bool" where
  "arm_gesture e =
     (rc_stick_F e < PARAM_ARM_THRESHOLD e
        \<and> rc_stick_Z e > round32 (1 - PARAM_ARM_THRESHOLD e))"

definition disarm_gesture :: "inputs \<Rightarrow> bool" where
  "disarm_gesture e =
     (rc_stick_F e < PARAM_ARM_THRESHOLD e
        \<and> rc_stick_Z e < - round32 (1 - PARAM_ARM_THRESHOLD e))"

text \<open>
  Successive calls of \<open>update_state()\<close> under unchanging inputs \<open>e\<close>, each made exactly
  20 ms of board clock after the last one: the values returned and the final state.
\<close>

fun hold_epochs :: "inputs \<Rightarrow> nat \<Rightarrow> mode \<Rightarrow> (bool list \<times> mode) option" where
  "hold_epochs e 0 s = Some ([], s)"
| "hold_epochs e (Suc n) s =
     (case update_state (e\<lparr>clock_millis := prev_time_ms s + 20\<rparr>) s of
        None \<Rightarrow> None
      | Some (r, s') \<Rightarrow>
          (case hold_epochs e n s' of
             None \<Rightarrow> None
           | Some (rs, s'') \<Rightarrow> Some (r # rs, s'')))"

subsection \<open>Concrete inputs and states\<close>

text \<open>
  Six channels at 1500 microseconds, link present, sticks centred, no arm switch mapped,
  calibrate-on-arm off, threshold 0.1, the clock at 20 ms.
\<close>

definition idle_inputs :: inputs where
  "idle_inputs =
     \<lparr>PARAM_CALIBRATE_GYRO_ON_ARM = 0, PARAM_RC_NUM_CHANNELS = 6,
      PARAM_ARM_THRESHOLD = 0.1, gyro_calibration_complete = False, pwm_lost = False,
      pwm_read = (\<lambda>_. 1500), clock_millis = 20, rc_switch_mapped_ARM = False,
      rc_switch_ARM = False, rc_stick_F = 0, rc_stick_Z = 0\<rparr>"

text \<open>
  The state after the constructor and \<open>init()\<close>: disarmed, no fault, no failsafe, latch
  clear, both times zero; the static counter starts at zero and nothing has been issued.
\<close>

definition init_mode :: mode where
  "init_mode =
     \<lparr>armed = False, error_code = ERROR_NONE, failsafe_active = False,
      started_gyro_calibration = False, prev_time_ms = 0,
      time_sticks_have_been_in_arming_position_ms = 0, count = 0, commands = []\<rparr>"

definition cal_inputs :: inputs where
  "cal_inputs = idle_inputs\<lparr>PARAM_CALIBRATE_GYRO_ON_ARM := 1\<rparr>"

definition lost_inputs :: inputs where
  "lost_inputs = idle_inputs\<lparr>pwm_lost := True\<rparr>"

definition glitch_inputs :: inputs where
  "glitch_inputs = idle_inputs\<lparr>pwm_read := (\<lambda>i. if i = 3 then 800 else 1500)\<rparr>"

definition hold_inputs :: inputs where
  "hold_inputs = idle_inputs\<lparr>rc_stick_Z := 0.95\<rparr>"

text \<open>
  Inputs at a rounding boundary: the threshold is the single-precision value
  \<open>13421771 / 2 ^ 27\<close> (just below 0.1), and the yaw stick is \<open>15099495 / 2 ^ 24\<close>,
  which is what \<open>1.0f - threshold\<close> rounds to although the exact difference is smaller.
\<close>

definition boundary_inputs :: inputs where
  "boundary_inputs =
     idle_inputs\<lparr>PARAM_ARM_THRESHOLD := 13421771 / 134217728,
       rc_stick_Z := 15099495 / 16777216\<rparr>"

section \<open>Rounding to single precision\<close>

text \<open>
  The exponent search finds the binade of its argument, and two values of \<open>round32\<close>
  used below: \<open>1.0f - 0.1\<close> and the difference at the rounding boundary.
\<close>

lemma binade_eq:
  assumes "2 ^ k \<le> a * 2 ^ 126" "a * 2 ^ 126 < 2 ^ Suc k" "k \<le> n"
  shows "binade n a = k"
  using assms
proof (induction n)
  case 0
  then show ?case by simp
next
  case (Suc n)
  show ?case
  proof (cases "(2::real) ^ Suc n \<le> a * 2 ^ 126")
    case True
    with Suc.prems(2) have "(2::real) ^ Suc n < 2 ^ Suc k" by linarith
    then have "Suc n < Suc k" by (simp only: power_strict_increasing_iff)
    with Suc.prems(3) have "k = Suc n" by simp
    with True show ?thesis by simp
  next
    case False
    with Suc.prems(1) have "(2::real) ^ k < 2 ^ Suc n" by linarith
    then have "k < Suc n" by (simp only: power_strict_increasing_iff)
    with Suc False show ?thesis by simp
  qed
qed

lemma round32_nine_tenths [simp]: "round32 (9 / 10) = 15099494 / 16777216"
proof -
  have "binade 253 \<bar>9 / 10\<bar> = 125"
    by (rule binade_eq) simp_all
  then show ?thesis
    by (simp add: round32_def round_half_even_def)
qed

lemma round32_boundary [simp]:
  "round32 (120795957 / 134217728) = 15099495 / 16777216"
proof -
  have "binade 253 \<bar>120795957 / 134217728\<bar> = 125"
    by (rule binade_eq) simp_all
  then show ?thesis
    by (simp add: round32_def round_half_even_def)
qed

section \<open>Mode::disarm\<close>

text \<open>
  C1, as the code has it: from every state, \<open>disarm()\<close> leaves the module disarmed and
  issues \<open>led1_off\<close>; the calibration latch, the gesture hold timer and every other
  member keep their values.
\<close>

theorem disarm_effect:
  "disarm s = s\<lparr>armed := False, commands := commands s @ [Led1_off]\<rparr>
   \<and> armed (disarm s) = False
   \<and> started_gyro_calibration (disarm s) = started_gyro_calibration s
   \<and> time_sticks_have_been_in_arming_position_ms (disarm s)
       = time_sticks_have_been_in_arming_position_ms s"
  by (simp add: disarm_def issue_def)

text \<open>
  C1 as stated fails: in the calibration-pending state (latch set, 300 ms of hold
  accumulated) \<open>disarm()\<close> leaves the latch set and the timer at 300.
\<close>

theorem disarm_keeps_latch_and_timer:
  "started_gyro_calibration
     (disarm (init_mode\<lparr>started_gyro_calibration := True,
        time_sticks_have_been_in_arming_position_ms := 300\<rparr>)) = True
   \<and> time_sticks_have_been_in_arming_position_ms
     (disarm (init_mode\<lparr>started_gyro_calibration := True,
        time_sticks_have_been_in_arming_position_ms := 300\<rparr>)) = 300"
  by (simp add: disarm_def issue_def init_mode_def)

section \<open>Mode::arm\<close>

text \<open>
  C2: while a fault is active, every call of \<open>arm()\<close> returns false and leaves the state
  as it was, whatever the inputs; so any number of successive calls returns false each
  time and ends in the state it started from (in particular \<open>armed\<close> and the
  calibration latch are unchanged and no command is issued).
\<close>

theorem arm_refused_under_fault:
  assumes "error_code s \<noteq> ERROR_NONE"
  shows "arm e s = (False, s) \<and> arm_calls es s = (replicate (length es) False, s)"
proof
  show first: "arm e s = (False, s)" for e
    using assms by (simp add: arm_def)
  show "arm_calls es s = (replicate (length es) False, s)"
    by (induction es) (simp_all add: first)
qed

theorem arm_refused_under_fault_witness:
  "error_code (init_mode\<lparr>error_code := {ERROR_OTHER 2}\<rparr>) \<noteq> ERROR_NONE
   \<and> arm (idle_inputs\<lparr>rc_stick_Z := 1\<rparr>) (init_mode\<lparr>error_code := {ERROR_OTHER 2}\<rparr>)
       = (False, init_mode\<lparr>error_code := {ERROR_OTHER 2}\<rparr>)
   \<and> armed (snd (arm_calls [idle_inputs, idle_inputs\<lparr>gyro_calibration_complete := True\<rparr>]
       (init_mode\<lparr>error_code := {ERROR_OTHER 2}\<rparr>))) = False"
proof -
  have h: "error_code (init_mode\<lparr>error_code := {ERROR_OTHER 2}\<rparr>) \<noteq> ERROR_NONE"
    by (simp add: ERROR_NONE_def)
  show ?thesis
    using h arm_refused_under_fault [OF h]
    by (simp add: init_mode_def)
qed

lemma arm_calls_append:
  "arm_calls (xs @ ys) s =
     (case arm_calls xs s of (rs, s') \<Rightarrow>
        (case arm_calls ys s' of (rs', s'') \<Rightarrow> (rs @ rs', s'')))"
  by (induction xs arbitrary: s) (simp_all split: prod.splits)

lemma arm_pending_polls:
  assumes "error_code p = ERROR_NONE" "\<not> armed p" "started_gyro_calibration p"
    and "\<forall>e\<in>set es. PARAM_CALIBRATE_GYRO_ON_ARM e \<noteq> 0 \<and> \<not> gyro_calibration_complete e"
  shows "arm_calls es p = (replicate (length es) False, p)"
  using assms by (induction es) (simp_all add: arm_def)

text \<open>
  C3: with calibrate-gyro-on-arm enabled, no fault, disarmed and the latch clear, the first
  call of \<open>arm()\<close> issues \<open>start_gyro_calibration\<close>, sets the latch and returns
  false. Every following call that sees calibration incomplete returns false and changes
  nothing (no second calibration request). The first following call that sees calibration
  complete sets \<open>armed\<close>, clears the latch, issues \<open>led1_on\<close> and returns true.
\<close>

theorem arm_calibration_gating:
  assumes "error_code s = ERROR_NONE" "\<not> armed s" "\<not> started_gyro_calibration s"
    and "PARAM_CALIBRATE_GYRO_ON_ARM e0 \<noteq> 0"
    and "\<forall>e\<in>set es. PARAM_CALIBRATE_GYRO_ON_ARM e \<noteq> 0 \<and> \<not> gyro_calibration_complete e"
    and "PARAM_CALIBRATE_GYRO_ON_ARM e1 \<noteq> 0" "gyro_calibration_complete e1"
  shows "arm e0 s =
           (False, s\<lparr>started_gyro_calibration := True,
                     commands := commands s @ [Start_gyro_calibration]\<rparr>)
       \<and> arm_calls (e0 # es) s =
           (replicate (Suc (length es)) False,
            s\<lparr>started_gyro_calibration := True,
              commands := commands s @ [Start_gyro_calibration]\<rparr>)
       \<and> arm_calls (e0 # es @ [e1]) s =
           (replicate (Suc (length es)) False @ [True],
            s\<lparr>armed := True, started_gyro_calibration := False,
              commands := commands s @ [Start_gyro_calibration, Led1_on]\<rparr>)"
proof -
  let ?p = "s\<lparr>started_gyro_calibration := True,
               commands := commands s @ [Start_gyro_calibration]\<rparr>"
  have first: "arm e0 s = (False, ?p)"
    using assms(1-4) by (simp add: arm_def issue_def)
  have polls: "arm_calls es ?p = (replicate (length es) False, ?p)"
    using assms(1,2,5) by (intro arm_pending_polls) simp_all
  have final: "arm e1 ?p =
      (True, s\<lparr>armed := True, started_gyro_calibration := False,
               commands := commands s @ [Start_gyro_calibration, Led1_on]\<rparr>)"
    using assms(1,2,6,7) by (simp add: arm_def issue_def)
  have "arm_calls (e0 # es) s = (replicate (Suc (length es)) False, ?p)"
    by (simp add: first polls)
  moreover have "arm_calls (e0 # es @ [e1]) s =
      (replicate (Suc (length es)) False @ [True],
       s\<lparr>armed := True, started_gyro_calibration := False,
         commands := commands s @ [Start_gyro_calibration, Led1_on]\<rparr>)"
    by (simp add: first arm_calls_append polls final)
  ultimately show ?thesis using first by simp
qed

theorem arm_calibration_gating_witness:
  "arm_calls [cal_inputs, cal_inputs, cal_inputs,
              cal_inputs\<lparr>gyro_calibration_complete := True\<rparr>] init_mode
     = ([False, False, False, True],
        init_mode\<lparr>armed := True, commands := [Start_gyro_calibration, Led1_on]\<rparr>)"
proof -
  have h: "error_code init_mode = ERROR_NONE" "\<not> armed init_mode"
    "\<not> started_gyro_calibration init_mode"
    "PARAM_CALIBRATE_GYRO_ON_ARM cal_inputs \<noteq> 0"
    "\<forall>e\<in>set [cal_inputs, cal_inputs].
          PARAM_CALIBRATE_GYRO_ON_ARM e \<noteq> 0 \<and> \<not> gyro_calibration_complete e"
    "PARAM_CALIBRATE_GYRO_ON_ARM (cal_inputs\<lparr>gyro_calibration_complete := True\<rparr>) \<noteq> 0"
    "gyro_calibration_complete (cal_inputs\<lparr>gyro_calibration_complete := True\<rparr>)"
    by (simp_all add: cal_inputs_def idle_inputs_def init_mode_def)
  have "arm_calls [cal_inputs, cal_inputs, cal_inputs,
                   cal_inputs\<lparr>gyro_calibration_complete := True\<rparr>] init_mode
        = arm_calls (cal_inputs # [cal_inputs, cal_inputs]
                     @ [cal_inputs\<lparr>gyro_calibration_complete := True\<rparr>]) init_mode"
    by (simp only: append.simps)
  also have "\<dots> = (replicate (Suc (length [cal_inputs, cal_inputs])) False @ [True],
       init_mode\<lparr>armed := True, started_gyro_calibration := False,
         commands := commands init_mode @ [Start_gyro_calibration, Led1_on]\<rparr>)"
    by (rule arm_calibration_gating [OF h, THEN conjunct2, THEN conjunct2])
  also have "\<dots> = ([False, False, False, True],
        init_mode\<lparr>armed := True, commands := [Start_gyro_calibration, Led1_on]\<rparr>)"
    by (simp add: init_mode_def)
  finally show ?thesis .
qed




section \<open>The channel scan\<close>

text \<open>
  Below 127 the signed eight-bit counter increments without wrapping.
\<close>

lemma sint_succ8:
  fixes i :: "8 word"
  assumes "sint i < 127"
  shows "sint (i + 1) = sint i + 1"
proof -
  have "- 128 \<le> sint i" using sint_ge [of i] by simp
  then have "signed_take_bit 7 (sint i + 1) = sint i + 1"
    using assms by (intro signed_take_bit_int_eq_self) simp_all
  then show ?thesis by (simp add: sint_word_add)
qed

text \<open>
  With at most 127 configured channels the scan ends, and reports whether some channel
  from the counter's value up to the configured count has a pulse width out of band.
\<close>

lemma channel_scan_returns:
  assumes "PARAM_RC_NUM_CHANNELS e \<le> 127"
  shows "channel_scan e i failsafe =
     Some (failsafe \<or> (\<exists>j. sint i \<le> j \<and> j < PARAM_RC_NUM_CHANNELS e \<and> pulse_invalid e j))"
proof (induction "nat (PARAM_RC_NUM_CHANNELS e - sint i)" arbitrary: i failsafe)
  case 0
  then have "\<not> sint i < PARAM_RC_NUM_CHANNELS e" by simp
  then show ?case by (subst channel_scan.simps) auto
next
  case (Suc m)
  then have lt: "sint i < PARAM_RC_NUM_CHANNELS e" by linarith
  with assms have step: "sint (i + 1) = sint i + 1" by (intro sint_succ8) simp
  have "m = nat (PARAM_RC_NUM_CHANNELS e - sint (i + 1))"
    using Suc.hyps(2) step by simp
  from Suc.hyps(1) [OF this]
  have "channel_scan e (i + 1) (if pulse_invalid e (sint i) then True else failsafe) =
      Some ((if pulse_invalid e (sint i) then True else failsafe)
        \<or> (\<exists>j. sint i + 1 \<le> j \<and> j < PARAM_RC_NUM_CHANNELS e \<and> pulse_invalid e j))"
    by (simp only: step)
  moreover have "(\<exists>j. sint i \<le> j \<and> j < PARAM_RC_NUM_CHANNELS e \<and> pulse_invalid e j)
      \<longleftrightarrow> pulse_invalid e (sint i)
        \<or> (\<exists>j. sint i + 1 \<le> j \<and> j < PARAM_RC_NUM_CHANNELS e \<and> pulse_invalid e j)"
    using lt by (metis add1_zle_eq order_le_less)
  ultimately show ?case
    using lt by (subst channel_scan.simps) auto
qed

text \<open>
  With more than 127 configured channels the scan never ends: every value of the counter
  is below the bound.
\<close>

lemma channel_scan_Some_bound:
  assumes "channel_scan e i failsafe = Some y"
  shows "PARAM_RC_NUM_CHANNELS e \<le> 127"
proof (rule channel_scan.raw_induct
    [where P = "\<lambda>e i failsafe y. PARAM_RC_NUM_CHANNELS e \<le> 127", OF _ assms])
  fix scan e and i :: "8 word" and failsafe y
  assume IH: "\<And>e i failsafe y. scan e i failsafe = Some y \<Longrightarrow> PARAM_RC_NUM_CHANNELS e \<le> 127"
    and body: "(if sint i < PARAM_RC_NUM_CHANNELS e
          then scan e (i + 1) (if pulse_invalid e (sint i) then True else failsafe)
          else Some failsafe) = Some y"
  show "PARAM_RC_NUM_CHANNELS e \<le> 127"
  proof (cases "sint i < PARAM_RC_NUM_CHANNELS e")
    case True
    with body IH show ?thesis by simp
  next
    case False
    moreover have "sint i < 128" using sint_lt [of i] by simp
    ultimately show ?thesis by simp
  qed
qed

lemma channel_scan_never_returns:
  assumes "127 < PARAM_RC_NUM_CHANNELS e"
  shows "channel_scan e i failsafe = None"
  using assms channel_scan_Some_bound [of e i failsafe]
  by (cases "channel_scan e i failsafe") auto

lemma channel_scan_128:
  "channel_scan (idle_inputs\<lparr>PARAM_RC_NUM_CHANNELS := 128\<rparr>) 0 False = None"
  by (rule channel_scan_never_returns) simp

section \<open>Mode::check_failsafe\<close>

text \<open>
  The three outcomes of one call, in closed form. The call returns unless the link is
  present and more than 127 channels are configured.
\<close>

lemma pulse_invalid_band:
  "pulse_invalid e j \<longleftrightarrow> unat (pwm_read e j) \<notin> {900..2100}"
  by (auto simp: pulse_invalid_def word_less_nat_alt)

lemma check_failsafe_lost:
  assumes "pwm_lost e"
  shows "check_failsafe e s =
    Some (True,
      s\<lparr>error_code := insert ERROR_RC_LOST (error_code s),
        failsafe_active := True,
        count := (if count s > 25 then 1 else count s + 1),
        commands := (if count s > 25 then commands s @ [Led1_toggle] else commands s)\<rparr>)"
  using assms by (simp add: check_failsafe_def set_error_code_def issue_def Let_def)

lemma check_failsafe_present:
  assumes "\<not> pwm_lost e" "PARAM_RC_NUM_CHANNELS e \<le> 127"
  shows "check_failsafe e s =
    Some (if \<exists>j. 0 \<le> j \<and> j < PARAM_RC_NUM_CHANNELS e \<and> pulse_invalid e j
      then (True,
        s\<lparr>failsafe_active := True,
          count := (if count s > 25 then 1 else count s + 1),
          commands := (if count s > 25 then commands s @ [Led1_toggle] else commands s)\<rparr>)
      else (False,
        s\<lparr>failsafe_active := False,
          error_code := error_code s - {ERROR_RC_LOST},
          commands := commands s @ [if armed s then Led1_on else Led1_off]\<rparr>))"
  using assms
  by (auto simp: check_failsafe_def channel_scan_returns clear_error_code_def issue_def Let_def)

lemma check_failsafe_None:
  "check_failsafe e s = None \<longleftrightarrow> \<not> pwm_lost e \<and> 127 < PARAM_RC_NUM_CHANNELS e"
proof (cases "pwm_lost e")
  case True
  then show ?thesis by (simp add: check_failsafe_lost)
next
  case False
  show ?thesis
  proof (cases "PARAM_RC_NUM_CHANNELS e \<le> 127")
    case True
    with False show ?thesis by (simp add: check_failsafe_present)
  next
    case False
    with \<open>\<not> pwm_lost e\<close> show ?thesis
      by (simp add: check_failsafe_def channel_scan_never_returns)
  qed
qed

text \<open>
  C4, as the code has it: a call of \<open>check_failsafe()\<close> returns whenever the link is
  lost or the configured channel count is at most 127 (the channel counter is an
  \<open>int8_t\<close>). Whenever it returns, the flag it returns is also stored in \<open>failsafe_active\<close>,
  and: if the link is reported lost, the flag is true and \<open>RC_LOST\<close> is in the fault
  set; if the link is present and some channel index in \<open>[0, count)\<close> has a pulse width
  outside \<open>[900, 2100]\<close>, the flag is true and the fault set is as it was; if the link
  is present and every such channel is within \<open>[900, 2100]\<close>, the flag is false,
  \<open>RC_LOST\<close> is removed from the fault set, and the last command issued is \<open>led1_on\<close>
  if armed and \<open>led1_off\<close> if disarmed.
\<close>

theorem check_failsafe_branches:
  "(pwm_lost e \<or> PARAM_RC_NUM_CHANNELS e \<le> 127 \<longrightarrow> (\<exists>r s'. check_failsafe e s = Some (r, s')))
   \<and> (\<forall>r s'. check_failsafe e s = Some (r, s') \<longrightarrow>
        failsafe_active s' = r
      \<and> (pwm_lost e \<longrightarrow> r \<and> ERROR_RC_LOST \<in> error_code s')
      \<and> (\<not> pwm_lost e
           \<and> (\<exists>j. 0 \<le> j \<and> j < PARAM_RC_NUM_CHANNELS e \<and> unat (pwm_read e j) \<notin> {900..2100})
          \<longrightarrow> r \<and> error_code s' = error_code s)
      \<and> (\<not> pwm_lost e
           \<and> (\<forall>j. 0 \<le> j \<and> j < PARAM_RC_NUM_CHANNELS e \<longrightarrow> unat (pwm_read e j) \<in> {900..2100})
          \<longrightarrow> \<not> r \<and> ERROR_RC_LOST \<notin> error_code s'
              \<and> error_code s' = error_code s - {ERROR_RC_LOST}
              \<and> commands s' = commands s @ [if armed s' then Led1_on else Led1_off]))"
proof (cases "pwm_lost e")
  case True
  then show ?thesis by (auto simp: check_failsafe_lost)
next
  case present: False
  show ?thesis
  proof (cases "PARAM_RC_NUM_CHANNELS e \<le> 127")
    case True
    with present show ?thesis
      by (auto simp: check_failsafe_present pulse_invalid_band split: if_splits)
  next
    case False
    then have "check_failsafe e s = None"
      using present by (simp add: check_failsafe_None)
    with present False show ?thesis by simp
  qed
qed

theorem check_failsafe_branches_witness:
  "check_failsafe lost_inputs init_mode
     = Some (True, init_mode\<lparr>error_code := {ERROR_RC_LOST}, failsafe_active := True, count := 1\<rparr>)
   \<and> check_failsafe glitch_inputs init_mode
     = Some (True, init_mode\<lparr>failsafe_active := True, count := 1\<rparr>)
   \<and> check_failsafe idle_inputs (init_mode\<lparr>armed := True, error_code := {ERROR_RC_LOST}\<rparr>)
     = Some (False, init_mode\<lparr>armed := True, commands := [Led1_on]\<rparr>)"
proof -
  have lost: "pwm_lost lost_inputs"
    by (simp add: lost_inputs_def)
  have glitch: "\<not> pwm_lost glitch_inputs \<and> PARAM_RC_NUM_CHANNELS glitch_inputs \<le> 127
      \<and> (\<exists>j. 0 \<le> j \<and> j < PARAM_RC_NUM_CHANNELS glitch_inputs
            \<and> unat (pwm_read glitch_inputs j) \<notin> {900..2100})"
    by (auto simp: glitch_inputs_def idle_inputs_def intro!: exI [of _ 3])
  have idle: "\<not> pwm_lost idle_inputs \<and> PARAM_RC_NUM_CHANNELS idle_inputs \<le> 127
      \<and> (\<forall>j. 0 \<le> j \<and> j < PARAM_RC_NUM_CHANNELS idle_inputs
            \<longrightarrow> unat (pwm_read idle_inputs j) \<in> {900..2100})"
    by (simp add: idle_inputs_def)
  let ?s = "init_mode\<lparr>armed := True, error_code := {ERROR_RC_LOST}\<rparr>"
  obtain r1 s1 where 1: "check_failsafe lost_inputs init_mode = Some (r1, s1)"
    using check_failsafe_branches [of lost_inputs init_mode] lost by blast
  then have p1: "r1 \<and> ERROR_RC_LOST \<in> error_code s1"
    using check_failsafe_branches [of lost_inputs init_mode] lost by blast
  obtain r2 s2 where 2: "check_failsafe glitch_inputs init_mode = Some (r2, s2)"
    using check_failsafe_branches [of glitch_inputs init_mode] glitch by blast
  then have p2: "r2 \<and> error_code s2 = error_code init_mode"
    using check_failsafe_branches [of glitch_inputs init_mode] glitch by blast
  obtain r3 s3 where 3: "check_failsafe idle_inputs ?s = Some (r3, s3)"
    using check_failsafe_branches [of idle_inputs ?s] idle by blast
  then have p3: "\<not> r3 \<and> ERROR_RC_LOST \<notin> error_code s3
      \<and> commands s3 = commands ?s @ [if armed s3 then Led1_on else Led1_off]"
    using check_failsafe_branches [of idle_inputs ?s] idle by blast
  have e1: "check_failsafe lost_inputs init_mode
     = Some (True, init_mode\<lparr>error_code := {ERROR_RC_LOST}, failsafe_active := True, count := 1\<rparr>)"
    by (simp add: check_failsafe_def lost_inputs_def idle_inputs_def init_mode_def
        set_error_code_def ERROR_NONE_def)
  have e2: "check_failsafe glitch_inputs init_mode
     = Some (True, init_mode\<lparr>failsafe_active := True, count := 1\<rparr>)"
    by (simp add: check_failsafe_def glitch_inputs_def idle_inputs_def init_mode_def
        channel_scan.simps pulse_invalid_def)
  have e3: "check_failsafe idle_inputs ?s
     = Some (False, init_mode\<lparr>armed := True, commands := [Led1_on]\<rparr>)"
    by (simp add: check_failsafe_def idle_inputs_def init_mode_def
        channel_scan.simps pulse_invalid_def clear_error_code_def issue_def ERROR_NONE_def)
  from 1 p1 2 p2 3 p3 e1 e2 e3 show ?thesis by simp
qed

text \<open>
  C4 as stated fails for a channel count the counter cannot reach: with 128 channels
  configured and the link present, the call does not return, neither with channel 3 at
  800 microseconds (where the claim has the result true) nor with every channel at 1500
  (where it has the result false).
\<close>

theorem check_failsafe_128_channels:
  "check_failsafe (glitch_inputs\<lparr>PARAM_RC_NUM_CHANNELS := 128\<rparr>) init_mode = None
   \<and> pwm_lost (glitch_inputs\<lparr>PARAM_RC_NUM_CHANNELS := 128\<rparr>) = False
   \<and> unat (pwm_read (glitch_inputs\<lparr>PARAM_RC_NUM_CHANNELS := 128\<rparr>) 3) = 800
   \<and> check_failsafe (idle_inputs\<lparr>PARAM_RC_NUM_CHANNELS := 128\<rparr>) init_mode = None"
  by (simp add: check_failsafe_None glitch_inputs_def idle_inputs_def)

section \<open>Mode::update_state\<close>

text \<open>
  What one call of \<open>check_failsafe\<close>, \<open>arm\<close> or \<open>disarm\<close> leaves alone.
\<close>

lemma check_failsafe_frame:
  assumes "check_failsafe e s = Some (r, s')"
  shows "armed s' = armed s \<and> prev_time_ms s' = prev_time_ms s
       \<and> time_sticks_have_been_in_arming_position_ms s'
           = time_sticks_have_been_in_arming_position_ms s
       \<and> started_gyro_calibration s' = started_gyro_calibration s
       \<and> failsafe_active s' = r"
proof (cases "pwm_lost e")
  case True
  with assms show ?thesis by (auto simp: check_failsafe_lost)
next
  case False
  with assms have "PARAM_RC_NUM_CHANNELS e \<le> 127"
    using check_failsafe_None [of e s] by auto
  with False assms show ?thesis
    by (auto simp: check_failsafe_present split: if_splits)
qed

lemma arm_frame:
  assumes "arm e s = (ok, s')"
  shows "prev_time_ms s' = prev_time_ms s
   \<and> time_sticks_have_been_in_arming_position_ms s'
       = time_sticks_have_been_in_arming_position_ms s
   \<and> failsafe_active s' = failsafe_active s"
  using assms by (auto simp: arm_def issue_def split: if_splits)

lemma arm_snd_frame:
  "prev_time_ms (snd (arm e s)) = prev_time_ms s
   \<and> time_sticks_have_been_in_arming_position_ms (snd (arm e s))
       = time_sticks_have_been_in_arming_position_ms s
   \<and> failsafe_active (snd (arm e s)) = failsafe_active s"
  by (simp add: arm_def issue_def)

lemma disarm_frame:
  "prev_time_ms (disarm s) = prev_time_ms s
   \<and> time_sticks_have_been_in_arming_position_ms (disarm s)
       = time_sticks_have_been_in_arming_position_ms s
   \<and> failsafe_active (disarm s) = failsafe_active s"
  by (simp add: disarm_def issue_def)

text \<open>
  The three facts behind the rate limit: a call within 20 ms of the last processed one
  returns false with the state untouched; a later call that returns has returned true
  with \<open>prev_time_ms\<close> at the clock; and a call returns whenever the link is lost or at
  most 127 channels are configured.
\<close>

lemma update_state_limited:
  assumes "clock_millis e - prev_time_ms s < 20"
  shows "update_state e s = Some (False, s)"
  using assms by (simp add: update_state_def)

lemma update_state_processed:
  assumes "\<not> clock_millis e - prev_time_ms s < 20"
    and "update_state e s = Some (r, s')"
  shows "r \<and> prev_time_ms s' = clock_millis e"
proof -
  obtain f s1 where cf: "check_failsafe e (s\<lparr>prev_time_ms := clock_millis e\<rparr>) = Some (f, s1)"
    using assms by (auto simp: update_state_def Let_def split: option.splits)
  from check_failsafe_frame [OF cf] have "prev_time_ms s1 = clock_millis e" by simp
  with assms cf show ?thesis
    by (auto simp: update_state_def Let_def arm_snd_frame disarm_frame
        split: if_splits prod.splits dest: arm_frame)
qed

lemma update_state_returns:
  assumes "pwm_lost e \<or> PARAM_RC_NUM_CHANNELS e \<le> 127"
  shows "\<exists>r s'. update_state e s = Some (r, s')"
proof -
  have "check_failsafe e (s\<lparr>prev_time_ms := clock_millis e\<rparr>) \<noteq> None"
    using assms by (auto simp: check_failsafe_None)
  then show ?thesis
    by (auto simp: update_state_def Let_def split: prod.splits)
qed

text \<open>
  C5, as the code has it: if the unsigned 32-bit difference between the clock and
  \<open>prev_time_ms\<close> is below 20, \<open>update_state()\<close> returns false and the whole state is
  as before. Otherwise, whenever the link is lost or the configured channel count is at
  most 127, the call returns true with \<open>prev_time_ms\<close> set to the clock; and no call
  that returns at all returns anything else.
\<close>

theorem update_state_rate_limit:
  "(clock_millis e - prev_time_ms s < 20 \<longrightarrow> update_state e s = Some (False, s))
   \<and> (\<not> clock_millis e - prev_time_ms s < 20 \<longrightarrow>
        (pwm_lost e \<or> PARAM_RC_NUM_CHANNELS e \<le> 127
           \<longrightarrow> (\<exists>s'. update_state e s = Some (True, s') \<and> prev_time_ms s' = clock_millis e))
      \<and> (\<forall>r s'. update_state e s = Some (r, s') \<longrightarrow> r \<and> prev_time_ms s' = clock_millis e))"
  using update_state_limited [of e s] update_state_processed [of e s]
    update_state_returns [of e s]
  by metis

theorem update_state_rate_limit_witness:
  "update_state (idle_inputs\<lparr>clock_millis := 19\<rparr>) init_mode = Some (False, init_mode)
   \<and> update_state idle_inputs init_mode
       = Some (True, init_mode\<lparr>prev_time_ms := 20, commands := [Led1_off]\<rparr>)
   \<and> update_state (idle_inputs\<lparr>clock_millis := 4\<rparr>) (init_mode\<lparr>prev_time_ms := 4294967280\<rparr>)
       = Some (True, init_mode\<lparr>prev_time_ms := 4, commands := [Led1_off]\<rparr>)"
proof -
  let ?e1 = "idle_inputs\<lparr>clock_millis := 19\<rparr>"
  let ?e3 = "idle_inputs\<lparr>clock_millis := 4\<rparr>" and ?s3 = "init_mode\<lparr>prev_time_ms := 4294967280\<rparr>"
  have 1: "clock_millis ?e1 - prev_time_ms init_mode < 20"
    by (simp add: idle_inputs_def init_mode_def)
  have 2: "\<not> clock_millis idle_inputs - prev_time_ms init_mode < 20"
    "pwm_lost idle_inputs \<or> PARAM_RC_NUM_CHANNELS idle_inputs \<le> 127"
    by (simp_all add: idle_inputs_def init_mode_def)
  have 3: "\<not> clock_millis ?e3 - prev_time_ms ?s3 < 20"
    "pwm_lost ?e3 \<or> PARAM_RC_NUM_CHANNELS ?e3 \<le> 127"
    by (simp_all add: idle_inputs_def init_mode_def)
  have a: "update_state ?e1 init_mode = Some (False, init_mode)"
    using update_state_rate_limit [of ?e1 init_mode] 1 by blast
  obtain s2 where b: "update_state idle_inputs init_mode = Some (True, s2)"
      "prev_time_ms s2 = clock_millis idle_inputs"
    using update_state_rate_limit [of idle_inputs init_mode] 2 by blast
  obtain s4 where c: "update_state ?e3 ?s3 = Some (True, s4)"
      "prev_time_ms s4 = clock_millis ?e3"
    using update_state_rate_limit [of ?e3 ?s3] 3 by blast
  have "update_state idle_inputs init_mode
       = Some (True, init_mode\<lparr>prev_time_ms := 20, commands := [Led1_off]\<rparr>)"
    by (simp add: update_state_def check_failsafe_def idle_inputs_def init_mode_def
        channel_scan.simps pulse_invalid_def clear_error_code_def issue_def ERROR_NONE_def)
  moreover have "update_state ?e3 ?s3
       = Some (True, init_mode\<lparr>prev_time_ms := 4, commands := [Led1_off]\<rparr>)"
    by (simp add: update_state_def check_failsafe_def idle_inputs_def init_mode_def
        channel_scan.simps pulse_invalid_def clear_error_code_def issue_def ERROR_NONE_def)
  ultimately show ?thesis using a b c by simp
qed

text \<open>
  C5 as stated fails for a channel count the \<open>int8_t\<close> counter cannot reach: 20 ms
  after the last processed epoch, with the link present and 128 channels configured, the
  call does not return true: it does not return.
\<close>

theorem update_state_128_channels:
  "update_state (idle_inputs\<lparr>PARAM_RC_NUM_CHANNELS := 128\<rparr>) init_mode = None
   \<and> \<not> clock_millis (idle_inputs\<lparr>PARAM_RC_NUM_CHANNELS := 128\<rparr>)
         - prev_time_ms init_mode < 20"
proof -
  have "check_failsafe (idle_inputs\<lparr>PARAM_RC_NUM_CHANNELS := 128\<rparr>)
      (init_mode\<lparr>prev_time_ms :=
         clock_millis (idle_inputs\<lparr>PARAM_RC_NUM_CHANNELS := 128\<rparr>)\<rparr>) = None"
    by (simp add: check_failsafe_None idle_inputs_def)
  then show ?thesis
    by (simp add: update_state_def Let_def idle_inputs_def init_mode_def)
qed

text \<open>
  C6, as the code has it. On a processed epoch that ends in failsafe, or with an arm
  switch mapped, the hold timer is left as it was. On a processed epoch without failsafe
  and without a mapped arm switch: if the gesture of the current direction (the disarm
  gesture while armed, the arm gesture while disarmed) is not satisfied, the timer is
  zero afterwards; if the epoch arms or disarms, the timer is zero afterwards; and if the
  gesture is satisfied and the armed flag does not change, the timer has grown by \<open>dt\<close>.
  The gestures are the code's single-precision tests, with \<open>1.0f - threshold\<close> rounded.
\<close>

theorem gesture_timer_epoch:
  assumes "\<not> clock_millis e - prev_time_ms s < 20"
    and "update_state e s = Some (r, s')"
  shows "(failsafe_active s' \<or> rc_switch_mapped_ARM e \<longrightarrow>
            time_sticks_have_been_in_arming_position_ms s'
              = time_sticks_have_been_in_arming_position_ms s)
       \<and> (\<not> failsafe_active s' \<and> \<not> rc_switch_mapped_ARM e \<longrightarrow>
            (\<not> (if armed s then disarm_gesture e else arm_gesture e) \<longrightarrow>
               time_sticks_have_been_in_arming_position_ms s' = 0)
          \<and> (armed s' \<noteq> armed s \<longrightarrow>
               time_sticks_have_been_in_arming_position_ms s' = 0)
          \<and> ((if armed s then disarm_gesture e else arm_gesture e) \<and> armed s' = armed s \<longrightarrow>
               time_sticks_have_been_in_arming_position_ms s'
                 = time_sticks_have_been_in_arming_position_ms s
                   + (clock_millis e - prev_time_ms s)))"
proof -
  obtain f s1 where cf: "check_failsafe e (s\<lparr>prev_time_ms := clock_millis e\<rparr>) = Some (f, s1)"
    using assms by (auto simp: update_state_def Let_def split: option.splits)
  from check_failsafe_frame [OF cf]
  have s1: "armed s1 = armed s" "failsafe_active s1 = f"
    "time_sticks_have_been_in_arming_position_ms s1
       = time_sticks_have_been_in_arming_position_ms s"
    by simp_all
  show ?thesis
  proof (cases f)
    case True
    with assms cf s1 show ?thesis by (simp add: update_state_def Let_def)
  next
    case nofs: False
    show ?thesis
    proof (cases "rc_switch_mapped_ARM e")
      case True
      with assms cf s1 nofs show ?thesis
        by (auto simp: update_state_def Let_def arm_snd_frame disarm_frame split: if_splits)
    next
      case gest: False
      show ?thesis
      proof (cases "armed s")
        case True
        with assms cf s1 nofs gest show ?thesis
          by (auto simp: update_state_def Let_def disarm_gesture_def disarm_def issue_def
              split: if_splits)
      next
        case False
        with assms cf s1 nofs gest show ?thesis
          by (auto simp: update_state_def Let_def arm_gesture_def arm_def issue_def
              split: if_splits prod.splits)
      qed
    qed
  qed
qed

theorem gesture_timer_epoch_witness:
  "update_state idle_inputs (init_mode\<lparr>time_sticks_have_been_in_arming_position_ms := 300\<rparr>)
     = Some (True, init_mode\<lparr>prev_time_ms := 20, commands := [Led1_off]\<rparr>)
   \<and> update_state hold_inputs (init_mode\<lparr>time_sticks_have_been_in_arming_position_ms := 300\<rparr>)
     = Some (True, init_mode\<lparr>time_sticks_have_been_in_arming_position_ms := 320,
               prev_time_ms := 20, commands := [Led1_off]\<rparr>)
   \<and> update_state hold_inputs (init_mode\<lparr>time_sticks_have_been_in_arming_position_ms := 500\<rparr>)
     = Some (True, init_mode\<lparr>armed := True, prev_time_ms := 20,
               commands := [Led1_off, Led1_on]\<rparr>)
   \<and> update_state boundary_inputs
         (init_mode\<lparr>time_sticks_have_been_in_arming_position_ms := 300\<rparr>)
     = Some (True, init_mode\<lparr>prev_time_ms := 20, commands := [Led1_off]\<rparr>)"
proof -
  let ?s = "init_mode\<lparr>time_sticks_have_been_in_arming_position_ms := 300\<rparr>"
  let ?t = "init_mode\<lparr>time_sticks_have_been_in_arming_position_ms := 500\<rparr>"
  let ?a = "init_mode\<lparr>prev_time_ms := 20, commands := [Led1_off]\<rparr>"
  let ?b = "init_mode\<lparr>time_sticks_have_been_in_arming_position_ms := 320,
               prev_time_ms := 20, commands := [Led1_off]\<rparr>"
  let ?c = "init_mode\<lparr>armed := True, prev_time_ms := 20, commands := [Led1_off, Led1_on]\<rparr>"
  have dt: "\<not> clock_millis idle_inputs - prev_time_ms ?s < 20"
    "\<not> clock_millis hold_inputs - prev_time_ms ?s < 20"
    "\<not> clock_millis hold_inputs - prev_time_ms ?t < 20"
    by (simp_all add: hold_inputs_def idle_inputs_def init_mode_def)
  have a: "update_state idle_inputs ?s = Some (True, ?a)"
    by (simp add: update_state_def check_failsafe_def idle_inputs_def init_mode_def
        channel_scan.simps pulse_invalid_def clear_error_code_def issue_def ERROR_NONE_def)
  have b: "update_state hold_inputs ?s = Some (True, ?b)"
    by (simp add: update_state_def check_failsafe_def hold_inputs_def idle_inputs_def
        init_mode_def channel_scan.simps pulse_invalid_def clear_error_code_def issue_def
        ERROR_NONE_def)
  have c: "update_state hold_inputs ?t = Some (True, ?c)"
    by (simp add: update_state_def check_failsafe_def hold_inputs_def idle_inputs_def
        init_mode_def channel_scan.simps pulse_invalid_def clear_error_code_def issue_def
        ERROR_NONE_def arm_def)
  have dt': "\<not> clock_millis boundary_inputs - prev_time_ms ?s < 20"
    by (simp add: boundary_inputs_def idle_inputs_def init_mode_def)
  have d: "update_state boundary_inputs ?s = Some (True, ?a)"
    by (simp add: update_state_def check_failsafe_def boundary_inputs_def idle_inputs_def
        init_mode_def channel_scan.simps pulse_invalid_def clear_error_code_def issue_def
        ERROR_NONE_def)
  have "\<not> arm_gesture boundary_inputs"
    by (simp add: arm_gesture_def boundary_inputs_def idle_inputs_def)
  then have "time_sticks_have_been_in_arming_position_ms ?a = 0"
    using gesture_timer_epoch [OF dt' d]
    by (simp add: boundary_inputs_def idle_inputs_def init_mode_def)
  moreover have "time_sticks_have_been_in_arming_position_ms ?a = 0"
    using gesture_timer_epoch [OF dt(1) a]
    by (simp add: idle_inputs_def init_mode_def arm_gesture_def)
  moreover have "time_sticks_have_been_in_arming_position_ms ?b = 320"
    using gesture_timer_epoch [OF dt(2) b]
    by (simp add: hold_inputs_def idle_inputs_def init_mode_def arm_gesture_def)
  moreover have "time_sticks_have_been_in_arming_position_ms ?c = 0"
    using gesture_timer_epoch [OF dt(3) c]
    by (simp add: hold_inputs_def idle_inputs_def init_mode_def)
  ultimately show ?thesis using a b c d by simp
qed

text \<open>
  C6 as stated fails on a failsafe epoch: disarmed, 300 ms of hold accumulated, sticks
  centred (the arm gesture is not satisfied), link lost. The epoch is processed and the
  timer is still 300.
\<close>

theorem timer_survives_failsafe_epoch:
  "update_state lost_inputs (init_mode\<lparr>time_sticks_have_been_in_arming_position_ms := 300\<rparr>)
     = Some (True,
         init_mode\<lparr>time_sticks_have_been_in_arming_position_ms := 300, prev_time_ms := 20,
           error_code := {ERROR_RC_LOST}, failsafe_active := True, count := 1\<rparr>)
   \<and> \<not> arm_gesture lost_inputs
   \<and> \<not> armed (init_mode\<lparr>time_sticks_have_been_in_arming_position_ms := 300\<rparr>)"
  by (simp add: update_state_def check_failsafe_def lost_inputs_def idle_inputs_def
      init_mode_def set_error_code_def ERROR_NONE_def arm_gesture_def)

section \<open>Consecutive failsafe epochs\<close>

text \<open>
  One failsafe call: the flag is true, \<open>RC_LOST\<close> is added only when the link is lost,
  and the blink counter either restarts at 1 with a toggle (when it had exceeded 25) or
  moves up by one.
\<close>

lemma check_failsafe_true:
  assumes "reports_failsafe e"
  shows "check_failsafe e s =
    Some (True,
      s\<lparr>error_code := (if pwm_lost e then insert ERROR_RC_LOST (error_code s) else error_code s),
        failsafe_active := True,
        count := (if count s > 25 then 1 else count s + 1),
        commands := (if count s > 25 then commands s @ [Led1_toggle] else commands s)\<rparr>)"
proof (cases "pwm_lost e")
  case True
  then show ?thesis by (simp add: check_failsafe_lost)
next
  case False
  with assms have "PARAM_RC_NUM_CHANNELS e \<le> 127"
    and "\<exists>j. 0 \<le> j \<and> j < PARAM_RC_NUM_CHANNELS e \<and> pulse_invalid e j"
    by (auto simp: reports_failsafe_def)
  with False show ?thesis by (simp add: check_failsafe_present)
qed

lemma blink_step:
  assumes "reports_failsafe e" "unat (count s) \<le> 26"
  obtains s' where "check_failsafe e s = Some (True, s')"
    and "unat (count s') = (if 25 < unat (count s) then 1 else unat (count s) + 1)"
    and "toggles s' = toggles s + (if 25 < unat (count s) then 1 else 0)"
    and "failsafe_active s'"
proof -
  have "unat (count s + 1) = unat (count s) + 1"
    using assms(2) by (simp add: unat_word_ariths)
  then show thesis
    using that check_failsafe_true [OF assms(1), of s]
    by (simp add: toggles_def word_less_nat_alt)
qed

lemma blink_run:
  assumes "\<forall>e\<in>set es. reports_failsafe e" "unat (count s) \<le> 26"
  shows "\<exists>s'. failsafe_checks es s = Some (replicate (length es) True, s')
           \<and> toggles s' = toggles s + (length es + unat (count s) - 1) div 26"
  using assms
proof (induction es arbitrary: s)
  case Nil
  then show ?case by simp
next
  case (Cons e es)
  then have "reports_failsafe e" by simp
  then obtain s1 where s1: "check_failsafe e s = Some (True, s1)"
    "unat (count s1) = (if 25 < unat (count s) then 1 else unat (count s) + 1)"
    "toggles s1 = toggles s + (if 25 < unat (count s) then 1 else 0)"
    using Cons.prems(2) by (rule blink_step)
  then have "unat (count s1) \<le> 26" using Cons.prems(2) by simp
  with Cons obtain s' where s': "failsafe_checks es s1 = Some (replicate (length es) True, s')"
    "toggles s' = toggles s1 + (length es + unat (count s1) - 1) div 26"
    by fastforce
  have "toggles s' = toggles s + (length (e # es) + unat (count s) - 1) div 26"
  proof (cases "25 < unat (count s)")
    case True
    with Cons.prems(2) have "unat (count s) = 26" by simp
    with s1 s' show ?thesis by simp
  next
    case False
    with s1 s' show ?thesis by simp
  qed
  with s1 s' show ?case by simp
qed

lemma lost_inputs_failsafe: "\<forall>e\<in>set (replicate n lost_inputs). reports_failsafe e"
  by (simp add: reports_failsafe_def lost_inputs_def)

text \<open>
  C8, as the code has it. A call of \<open>check_failsafe()\<close> that evaluates failsafe true
  toggles the LED and restarts the counter when the counter exceeds 25, and then
  increments it (so the counter is 1 after a toggle). Starting from a fresh counter,
  \<open>n\<close> consecutive failsafe calls have toggled the LED \<open>(n - 1) div 26\<close> times: the
  first toggle is in call 27 and the later ones follow every 26 calls; 30 consecutive
  failsafe epochs toggle the LED exactly once, in epoch 27.
\<close>

theorem failsafe_blink:
  assumes "\<forall>e\<in>set es. reports_failsafe e" and "count s = 0"
  shows "(\<exists>s'. failsafe_checks es s = Some (replicate (length es) True, s')
            \<and> toggles s' = toggles s + (length es - 1) div 26)
       \<and> (reports_failsafe e1 \<longrightarrow>
            (\<exists>s1'. check_failsafe e1 s1 = Some (True, s1')
               \<and> count s1' = (if count s1 > 25 then 1 else count s1 + 1)
               \<and> commands s1' =
                   (if count s1 > 25 then commands s1 @ [Led1_toggle] else commands s1)))"
proof
  from assms(2) have "unat (count s) \<le> 26" by simp
  from blink_run [OF assms(1) this] assms(2)
  show "\<exists>s'. failsafe_checks es s = Some (replicate (length es) True, s')
            \<and> toggles s' = toggles s + (length es - 1) div 26"
    by simp
  show "reports_failsafe e1 \<longrightarrow>
            (\<exists>s1'. check_failsafe e1 s1 = Some (True, s1')
               \<and> count s1' = (if count s1 > 25 then 1 else count s1 + 1)
               \<and> commands s1' =
                   (if count s1 > 25 then commands s1 @ [Led1_toggle] else commands s1))"
    by (simp add: check_failsafe_true)
qed

theorem failsafe_blink_witness:
  "map_option (\<lambda>(rs, s'). (rs, toggles s')) (failsafe_checks (replicate 30 lost_inputs) init_mode)
     = Some (replicate 30 True, 1)"
proof -
  have "count init_mode = 0" "toggles init_mode = 0"
    by (simp_all add: init_mode_def toggles_def)
  with failsafe_blink [OF lost_inputs_failsafe [of 30], of init_mode]
  show ?thesis by auto
qed

text \<open>
  C8 as stated fails: from the initial state, 26 consecutive link-lost epochs have not
  toggled the LED; the toggle comes with the 27th.
\<close>

theorem first_toggle_at_epoch_27:
  "map_option (toggles \<circ> snd) (failsafe_checks (replicate 26 lost_inputs) init_mode) = Some 0
   \<and> map_option (toggles \<circ> snd) (failsafe_checks (replicate 27 lost_inputs) init_mode) = Some 1"
proof -
  have "unat (count init_mode) \<le> 26" "unat (count init_mode) = 0" "toggles init_mode = 0"
    by (simp_all add: init_mode_def toggles_def)
  with blink_run [OF lost_inputs_failsafe [of 26], of init_mode]
    blink_run [OF lost_inputs_failsafe [of 27], of init_mode]
  show ?thesis by auto
qed

lemma fault_kept:
  assumes "\<forall>e\<in>set es. reports_failsafe e" "ERROR_RC_LOST \<in> error_code s"
  shows "\<exists>s'. failsafe_checks es s = Some (replicate (length es) True, s')
           \<and> ERROR_RC_LOST \<in> error_code s'"
  using assms
proof (induction es arbitrary: s)
  case Nil
  then show ?case by simp
next
  case (Cons e es)
  then have "reports_failsafe e" by simp
  from check_failsafe_true [OF this, of s] obtain s1
    where s1: "check_failsafe e s = Some (True, s1)" "ERROR_RC_LOST \<in> error_code s1"
    using Cons.prems(2) by simp
  with Cons obtain s' where "failsafe_checks es s1 = Some (replicate (length es) True, s')"
    "ERROR_RC_LOST \<in> error_code s'"
    by fastforce
  with s1 show ?case by simp
qed

text \<open>
  C10: if one call of \<open>check_failsafe()\<close> sees the link lost and every following call
  sees the link present with some configured channel outside \<open>[900, 2100]\<close> (at most 127
  channels configured), then after the first call and after every further one all calls
  so far have returned true and \<open>RC_LOST\<close> is in the fault set. And whenever a call of
  \<open>check_failsafe()\<close> takes \<open>RC_LOST\<close> out of the fault set, it has returned false.
\<close>

theorem rc_lost_persists:
  assumes "pwm_lost e0"
    and "\<forall>e\<in>set es. \<not> pwm_lost e \<and> PARAM_RC_NUM_CHANNELS e \<le> 127
          \<and> (\<exists>j. 0 \<le> j \<and> j < PARAM_RC_NUM_CHANNELS e \<and> unat (pwm_read e j) \<notin> {900..2100})"
  shows "(\<exists>s'. failsafe_checks (e0 # take k es) s = Some (replicate (Suc (length (take k es))) True, s')
            \<and> ERROR_RC_LOST \<in> error_code s')
       \<and> (\<forall>e1 s1 r s1'. check_failsafe e1 s1 = Some (r, s1') \<and> ERROR_RC_LOST \<in> error_code s1
            \<and> ERROR_RC_LOST \<notin> error_code s1' \<longrightarrow> \<not> r)"
proof
  have "\<forall>e\<in>set (e0 # take k es). reports_failsafe e"
  proof
    fix e assume "e \<in> set (e0 # take k es)"
    then consider "e = e0" | "e \<in> set es" by (auto dest: in_set_takeD)
    then show "reports_failsafe e"
    proof cases
      case 1
      with assms(1) show ?thesis by (simp add: reports_failsafe_def)
    next
      case 2
      with assms(2) show ?thesis
        by (fastforce simp: reports_failsafe_def pulse_invalid_band)
    qed
  qed
  then have rest: "\<forall>e\<in>set (take k es). reports_failsafe e" by simp
  let ?s0 = "s\<lparr>error_code := insert ERROR_RC_LOST (error_code s), failsafe_active := True,
        count := (if count s > 25 then 1 else count s + 1),
        commands := (if count s > 25 then commands s @ [Led1_toggle] else commands s)\<rparr>"
  have first: "check_failsafe e0 s = Some (True, ?s0)"
    using assms(1) by (rule check_failsafe_lost)
  have "ERROR_RC_LOST \<in> error_code ?s0" by simp
  from fault_kept [OF rest this] first
  show "\<exists>s'. failsafe_checks (e0 # take k es) s = Some (replicate (Suc (length (take k es))) True, s')
            \<and> ERROR_RC_LOST \<in> error_code s'"
    by auto
  show "\<forall>e1 s1 r s1'. check_failsafe e1 s1 = Some (r, s1') \<and> ERROR_RC_LOST \<in> error_code s1
            \<and> ERROR_RC_LOST \<notin> error_code s1' \<longrightarrow> \<not> r"
  proof (intro allI impI, elim conjE)
    fix e1 s1 r s1'
    assume cf: "check_failsafe e1 s1 = Some (r, s1')"
      and "ERROR_RC_LOST \<in> error_code s1" "ERROR_RC_LOST \<notin> error_code s1'"
    show "\<not> r"
    proof (cases "pwm_lost e1")
      case True
      with cf \<open>ERROR_RC_LOST \<notin> error_code s1'\<close> show ?thesis
        by (auto simp: check_failsafe_lost)
    next
      case False
      with cf have "PARAM_RC_NUM_CHANNELS e1 \<le> 127"
        using check_failsafe_None [of e1 s1] by auto
      with False cf \<open>ERROR_RC_LOST \<in> error_code s1\<close> \<open>ERROR_RC_LOST \<notin> error_code s1'\<close>
      show ?thesis
        by (auto simp: check_failsafe_present split: if_splits)
    qed
  qed
qed

theorem rc_lost_persists_witness:
  "failsafe_checks [lost_inputs, glitch_inputs, glitch_inputs] init_mode
     = Some ([True, True, True],
         init_mode\<lparr>error_code := {ERROR_RC_LOST}, failsafe_active := True, count := 3\<rparr>)"
proof -
  have h: "pwm_lost lost_inputs"
    "\<forall>e\<in>set [glitch_inputs, glitch_inputs]. \<not> pwm_lost e \<and> PARAM_RC_NUM_CHANNELS e \<le> 127
          \<and> (\<exists>j. 0 \<le> j \<and> j < PARAM_RC_NUM_CHANNELS e \<and> unat (pwm_read e j) \<notin> {900..2100})"
    by (auto simp: lost_inputs_def glitch_inputs_def idle_inputs_def intro!: exI [of _ 3])
  from rc_lost_persists [OF h, of 2 init_mode] obtain s'
    where "failsafe_checks [lost_inputs, glitch_inputs, glitch_inputs] init_mode
             = Some ([True, True, True], s')" "ERROR_RC_LOST \<in> error_code s'"
    by (auto simp: numeral_2_eq_2)
  moreover have "failsafe_checks [lost_inputs, glitch_inputs, glitch_inputs] init_mode
     = Some ([True, True, True],
         init_mode\<lparr>error_code := {ERROR_RC_LOST}, failsafe_active := True, count := 3\<rparr>)"
    by (simp add: check_failsafe_def lost_inputs_def glitch_inputs_def idle_inputs_def
        init_mode_def channel_scan.simps pulse_invalid_def set_error_code_def ERROR_NONE_def)
  ultimately show ?thesis by simp
qed

section \<open>Holding the arm gesture\<close>

text \<open>
  One processed epoch, 20 ms after the last, with the arm gesture held, no arm switch
  mapped and no failsafe. While disarmed with \<open>20 * k\<close> ms accumulated (\<open>k \<le> 25\<close>) and
  calibrate-on-arm disabled, the epoch adds 20 ms, and arms with the timer back at zero
  exactly when \<open>k = 25\<close>. While armed, the disarm gesture not being held, the epoch
  leaves the module armed with the timer at zero.
\<close>

lemma hold_step_disarmed:
  assumes e: "\<not> rc_switch_mapped_ARM e" "PARAM_CALIBRATE_GYRO_ON_ARM e = 0"
      "arm_gesture e" "\<not> reports_failsafe e" "PARAM_RC_NUM_CHANNELS e \<le> 127"
      "clock_millis e = prev_time_ms s + 20"
    and s: "\<not> armed s" "error_code s = ERROR_NONE"
      "unat (time_sticks_have_been_in_arming_position_ms s) = 20 * k" "k \<le> 25"
  obtains s' where "update_state e s = Some (True, s')"
    and "armed s' = (k = 25)" and "error_code s' = ERROR_NONE"
    and "prev_time_ms s' = clock_millis e"
    and "unat (time_sticks_have_been_in_arming_position_ms s') = (if k = 25 then 0 else 20 * Suc k)"
proof -
  have cf: "check_failsafe e (s\<lparr>prev_time_ms := clock_millis e\<rparr>) =
      Some (False, s\<lparr>prev_time_ms := clock_millis e, failsafe_active := False,
        error_code := {}, commands := commands s @ [Led1_off]\<rparr>)"
    using e(4,5) s(1,2)
    by (subst check_failsafe_present) (auto simp: reports_failsafe_def ERROR_NONE_def)
  have dt: "clock_millis e - prev_time_ms s = 20" using e(6) by simp
  have t: "unat (time_sticks_have_been_in_arming_position_ms s + 20) = 20 * Suc k"
    using s(3,4) by (simp add: unat_word_ariths)
  then have gt: "500 < time_sticks_have_been_in_arming_position_ms s + 20 \<longleftrightarrow> k = 25"
    using s(4) by (auto simp: word_less_nat_alt)
  show thesis
  proof (cases "k = 25")
    case True
    then show ?thesis
      using e(1-3) s(1,2) cf dt gt
      by (intro that [of "s\<lparr>prev_time_ms := clock_millis e, failsafe_active := False,
          error_code := {}, commands := commands s @ [Led1_off, Led1_on], armed := True,
          time_sticks_have_been_in_arming_position_ms := 0\<rparr>"])
        (simp_all add: update_state_def arm_gesture_def arm_def issue_def ERROR_NONE_def)
  next
    case False
    then show ?thesis
      using e(1-3) s(1,2) cf dt gt t
      by (intro that [of "s\<lparr>prev_time_ms := clock_millis e, failsafe_active := False,
          error_code := {}, commands := commands s @ [Led1_off],
          time_sticks_have_been_in_arming_position_ms :=
            time_sticks_have_been_in_arming_position_ms s + 20\<rparr>"])
        (simp_all add: update_state_def arm_gesture_def ERROR_NONE_def)
  qed
qed

lemma hold_step_armed:
  assumes e: "\<not> rc_switch_mapped_ARM e" "\<not> disarm_gesture e"
      "\<not> reports_failsafe e" "PARAM_RC_NUM_CHANNELS e \<le> 127"
      "clock_millis e = prev_time_ms s + 20"
    and s: "armed s"
  obtains s' where "update_state e s = Some (True, s')"
    and "armed s'" and "time_sticks_have_been_in_arming_position_ms s' = 0"
    and "prev_time_ms s' = clock_millis e"
proof -
  have cf: "check_failsafe e (s\<lparr>prev_time_ms := clock_millis e\<rparr>) =
      Some (False, s\<lparr>prev_time_ms := clock_millis e, failsafe_active := False,
        error_code := error_code s - {ERROR_RC_LOST}, commands := commands s @ [Led1_on]\<rparr>)"
    using e(3,4) s
    by (subst check_failsafe_present) (auto simp: reports_failsafe_def)
  have dt: "clock_millis e - prev_time_ms s = 20" using e(5) by simp
  show thesis
    using e(1,2) s cf dt
    by (intro that [of "s\<lparr>prev_time_ms := clock_millis e, failsafe_active := False,
        error_code := error_code s - {ERROR_RC_LOST}, commands := commands s @ [Led1_on],
        time_sticks_have_been_in_arming_position_ms := 0\<rparr>"])
      (auto simp: update_state_def disarm_gesture_def Let_def)
qed

text \<open>The same over any number of such epochs.\<close>

lemma hold_epochs_armed:
  assumes e: "\<not> rc_switch_mapped_ARM e" "\<not> disarm_gesture e"
      "\<not> reports_failsafe e" "PARAM_RC_NUM_CHANNELS e \<le> 127"
    and s: "armed s" "time_sticks_have_been_in_arming_position_ms s = 0"
  shows "\<exists>s'. hold_epochs e n s = Some (replicate n True, s') \<and> armed s'
           \<and> time_sticks_have_been_in_arming_position_ms s' = 0"
  using s
proof (induction n arbitrary: s)
  case 0
  then show ?case by simp
next
  case (Suc n)
  let ?e = "e\<lparr>clock_millis := prev_time_ms s + 20\<rparr>"
  have "\<not> rc_switch_mapped_ARM ?e" "\<not> disarm_gesture ?e" "\<not> reports_failsafe ?e"
    "PARAM_RC_NUM_CHANNELS ?e \<le> 127" "clock_millis ?e = prev_time_ms s + 20"
    using e by (simp_all add: disarm_gesture_def reports_failsafe_def pulse_invalid_def)
  then obtain s1 where s1: "update_state ?e s = Some (True, s1)" "armed s1"
    "time_sticks_have_been_in_arming_position_ms s1 = 0"
    using Suc.prems(1) by (rule hold_step_armed)
  from Suc.IH [OF s1(2,3)] s1(1) show ?case by auto
qed

lemma hold_epochs_disarmed:
  assumes e: "\<not> rc_switch_mapped_ARM e" "PARAM_CALIBRATE_GYRO_ON_ARM e = 0"
      "arm_gesture e" "\<not> disarm_gesture e" "\<not> reports_failsafe e"
      "PARAM_RC_NUM_CHANNELS e \<le> 127"
    and s: "\<not> armed s" "error_code s = ERROR_NONE"
      "unat (time_sticks_have_been_in_arming_position_ms s) = 20 * k" "k \<le> 25"
  shows "\<exists>s'. hold_epochs e n s = Some (replicate n True, s') \<and> armed s' = (26 \<le> k + n)
           \<and> unat (time_sticks_have_been_in_arming_position_ms s')
               = (if k + n < 26 then 20 * (k + n) else 0)"
  using s
proof (induction n arbitrary: s k)
  case 0
  then show ?case by simp
next
  case (Suc n)
  let ?e = "e\<lparr>clock_millis := prev_time_ms s + 20\<rparr>"
  have "\<not> rc_switch_mapped_ARM ?e" "PARAM_CALIBRATE_GYRO_ON_ARM ?e = 0" "arm_gesture ?e"
    "\<not> reports_failsafe ?e" "PARAM_RC_NUM_CHANNELS ?e \<le> 127"
    "clock_millis ?e = prev_time_ms s + 20"
    using e by (simp_all add: arm_gesture_def reports_failsafe_def pulse_invalid_def)
  then obtain s1 where s1: "update_state ?e s = Some (True, s1)"
    "armed s1 = (k = 25)" "error_code s1 = ERROR_NONE"
    "unat (time_sticks_have_been_in_arming_position_ms s1) = (if k = 25 then 0 else 20 * Suc k)"
    using Suc.prems by (rule hold_step_disarmed)
  show ?case
  proof (cases "k = 25")
    case True
    with s1 have "armed s1" "time_sticks_have_been_in_arming_position_ms s1 = 0"
      by (simp_all add: unat_eq_0)
    from hold_epochs_armed [OF e(1,4,5,6) this, of n] s1(1) True
    show ?thesis by auto
  next
    case False
    with s1 Suc.prems(4) have "\<not> armed s1" "error_code s1 = ERROR_NONE"
      "unat (time_sticks_have_been_in_arming_position_ms s1) = 20 * Suc k" "Suc k \<le> 25"
      by simp_all
    from Suc.IH [OF this] s1(1) show ?thesis by auto
  qed
qed

text \<open>
  C9: gesture-based arming (no arm switch mapped), arm threshold 0.1, calibrate-on-arm
  disabled, no fault, no failsafe (link present, every configured channel in band, at
  most 127 channels), starting disarmed with the hold timer at 0, throttle stick at 0.0
  and yaw stick at 0.95. After \<open>n\<close> consecutive calls of \<open>update_state()\<close>, each 20 ms
  after the last, every call has returned true, and the module is armed if and only if
  \<open>n \<ge> 26\<close>: it arms in the 26th epoch, when the accumulated hold of 520 ms first
  exceeds 500 ms (after 25 epochs the timer stands at 500), and stays armed, so it arms
  exactly once. Before that the timer is \<open>20 * n\<close>; from then on it is 0.
\<close>

theorem gesture_arms_on_26th_epoch:
  assumes "\<not> rc_switch_mapped_ARM e" "PARAM_ARM_THRESHOLD e = 0.1"
      "PARAM_CALIBRATE_GYRO_ON_ARM e = 0" "rc_stick_F e = 0" "rc_stick_Z e = 0.95"
    and "\<not> pwm_lost e" "PARAM_RC_NUM_CHANNELS e \<le> 127"
      "\<forall>j. 0 \<le> j \<and> j < PARAM_RC_NUM_CHANNELS e \<longrightarrow> unat (pwm_read e j) \<in> {900..2100}"
    and "error_code s = ERROR_NONE" "\<not> armed s"
      "time_sticks_have_been_in_arming_position_ms s = 0"
  shows "\<exists>s'. hold_epochs e n s = Some (replicate n True, s') \<and> armed s' = (26 \<le> n)
           \<and> time_sticks_have_been_in_arming_position_ms s'
               = (if n < 26 then 20 * of_nat n else 0)"
proof -
  have "round32 (1 - PARAM_ARM_THRESHOLD e) = 15099494 / 16777216"
    by (simp add: assms(2))
  then have g: "arm_gesture e" "\<not> disarm_gesture e"
    by (simp_all add: arm_gesture_def disarm_gesture_def assms(2,4,5))
  have "\<not> reports_failsafe e"
    using assms(6-8) by (auto simp: reports_failsafe_def pulse_invalid_band)
  note e = g this
  have "unat (time_sticks_have_been_in_arming_position_ms s) = 20 * 0" "(0::nat) \<le> 25"
    using assms(11) by simp_all
  from hold_epochs_disarmed [OF assms(1,3) e(1,2,3) assms(7,10,9) this, of n]
  obtain s' where s': "hold_epochs e n s = Some (replicate n True, s')" "armed s' = (26 \<le> n)"
    "unat (time_sticks_have_been_in_arming_position_ms s') = (if n < 26 then 20 * n else 0)"
    by auto
  have "time_sticks_have_been_in_arming_position_ms s' = (if n < 26 then 20 * of_nat n else 0)"
  proof (cases "n < 26")
    case True
    then have "unat (20 * of_nat n :: 32 word) = 20 * n"
      by (simp add: unat_word_ariths unat_of_nat)
    with s'(3) True show ?thesis by (simp add: word_unat_eq_iff)
  next
    case False
    with s'(3) show ?thesis by (simp add: unat_eq_0)
  qed
  with s' show ?thesis by blast
qed

theorem gesture_arms_on_26th_epoch_witness:
  "map_option (\<lambda>(rs, s'). (rs, armed s', time_sticks_have_been_in_arming_position_ms s'))
       (hold_epochs hold_inputs 25 init_mode) = Some (replicate 25 True, False, 500)
   \<and> map_option (\<lambda>(rs, s'). (rs, armed s', time_sticks_have_been_in_arming_position_ms s'))
       (hold_epochs hold_inputs 26 init_mode) = Some (replicate 26 True, True, 0)
   \<and> map_option (\<lambda>(rs, s'). (rs, armed s', time_sticks_have_been_in_arming_position_ms s'))
       (hold_epochs hold_inputs 60 init_mode) = Some (replicate 60 True, True, 0)"
proof -
  have h: "\<not> rc_switch_mapped_ARM hold_inputs" "PARAM_ARM_THRESHOLD hold_inputs = 0.1"
      "PARAM_CALIBRATE_GYRO_ON_ARM hold_inputs = 0" "rc_stick_F hold_inputs = 0"
      "rc_stick_Z hold_inputs = 0.95"
      "\<not> pwm_lost hold_inputs" "PARAM_RC_NUM_CHANNELS hold_inputs \<le> 127"
      "\<forall>j. 0 \<le> j \<and> j < PARAM_RC_NUM_CHANNELS hold_inputs
          \<longrightarrow> unat (pwm_read hold_inputs j) \<in> {900..2100}"
      "error_code init_mode = ERROR_NONE" "\<not> armed init_mode"
      "time_sticks_have_been_in_arming_position_ms init_mode = 0"
    by (simp_all add: hold_inputs_def idle_inputs_def init_mode_def)
  from gesture_arms_on_26th_epoch [OF h, of 25] gesture_arms_on_26th_epoch [OF h, of 26]
    gesture_arms_on_26th_epoch [OF h, of 60]
  show ?thesis by auto
qed

end
